theory Spec2Isabelle
  imports Main "HOL-Library.Finite_Map"
begin

section \<open>The ceph_crush module (library/ceph_crush.py)\<close>

text \<open>
  The module receives a cluster name and a dictionary \<open>location\<close> and issues
  \<^verbatim>\<open>ceph osd crush add-bucket\<close> and \<^verbatim>\<open>ceph osd crush move\<close> commands through
  \<^verbatim>\<open>module.run_command\<close>.

  Modelling decisions:
  \<^item> the dictionary is a finite map from strings to strings (keys are distinct, the
    order of insertion plays no role in the code: only \<^verbatim>\<open>len\<close>, \<^verbatim>\<open>in\<close> and
    indexing are used); bucket names are strings, as the code concatenates them with
    \<^verbatim>\<open>+\<close>;
  \<^item> a byte string and a text string are both a \<open>char list\<close>;
  \<^item> \<^verbatim>\<open>module.run_command\<close> and \<^verbatim>\<open>datetime.datetime.now\<close> are capabilities of
    the environment acting on an abstract world \<open>'w\<close>; each executed command is
    logged, with what it returned, in a trace that survives exceptions;
  \<^item> a Python exception is a value \<open>Inl e\<close>; \<^verbatim>\<open>exit_json\<close> and \<^verbatim>\<open>fail_json\<close>
    end the run and are constructors of the outcome.
\<close>

subsection \<open>Data\<close>

type_synonym location = "(string, string) fmap"

type_synonym argv = "string list"

text \<open>What \<^verbatim>\<open>run_command\<close> returns: exit code, standard output, standard error.\<close>

type_synonym cmd_result = "int \<times> string \<times> string"

datatype py_error = UnboundLocalError | KeyError

record 'w module_env =
  run_command :: "argv \<Rightarrow> 'w \<Rightarrow> cmd_result \<times> 'w"
  now :: "'w \<Rightarrow> int"

record 'w sys =
  world :: 'w
  trace :: "(argv \<times> cmd_result) list"

text \<open>
  The local variables of \<^verbatim>\<open>create_and_move_buckets\<close>. \<open>None\<close> in the first four
  fields is an unbound local; \<open>previous_bucket_type\<close> is bound from the start, to
  Python's \<^verbatim>\<open>None\<close> (\<open>None\<close>) or to a string.
\<close>

record locals =
  loc_rc :: "int option"
  loc_cmd :: "argv option"
  loc_out :: "string option"
  loc_err :: "string option"
  previous_bucket_type :: "string option"

text \<open>
  The key \<^verbatim>\<open>rc\<close> of the result dictionary holds the empty string at first and an
  integer later.
\<close>

datatype rc_value = RcEmpty | RcInt int

text \<open>
  The result dictionary. The key \<^verbatim>\<open>cmd\<close> is absent from the first dictionary
  (\<open>None\<close>). \<^verbatim>\<open>start\<close>, \<^verbatim>\<open>end\<close> and \<^verbatim>\<open>delta\<close> hold the empty string (\<open>None\<close>)
  or the text of a time, of which the model keeps the time; the field \<open>ended\<close>
  is the key \<^verbatim>\<open>end\<close>.
\<close>

record result =
  changed :: bool
  cmd :: "argv option"
  stdout :: string
  stderr :: string
  rc :: rc_value
  start :: "int option"
  ended :: "int option"
  delta :: "int option"

text \<open>
  How \<^verbatim>\<open>run_module\<close> ends: by its \<^verbatim>\<open>return\<close> statement (check mode), in
  \<^verbatim>\<open>module.exit_json\<close>, in \<^verbatim>\<open>module.fail_json\<close> with its message, or by an
  exception that nothing catches.
\<close>

datatype outcome =
    Returned result
  | ExitJson result
  | FailJson string result
  | Raised py_error

subsection \<open>Constants and command lines\<close>

definition crush_bucket_types :: "string list" where
  "crush_bucket_types =
     [''host'', ''chassis'', ''rack'', ''row'', ''pdu'', ''pod'', ''room'',
      ''datacenter'', ''region'', ''root'']"

definition generate_cmd :: "string \<Rightarrow> string \<Rightarrow> string \<Rightarrow> string \<Rightarrow> argv" where
  "generate_cmd cluster subcommand bucket bucket_type =
     [''ceph'', ''--cluster'', cluster, ''osd'', ''crush'', subcommand, bucket,
      bucket_type]"

subsection \<open>Running a command\<close>

text \<open>\<^verbatim>\<open>module.run_command(cmd, encoding=None)\<close>, with the call logged.\<close>

definition exec :: "'w module_env \<Rightarrow> argv \<Rightarrow> 'w sys \<Rightarrow> cmd_result \<times> 'w sys" where
  "exec env c s =
     (case run_command env c (world s) of
        (r, w') \<Rightarrow> (r, \<lparr>world = w', trace = trace s @ [(c, r)]\<rparr>))"

subsection \<open>create_and_move_buckets\<close>

definition init_locals :: locals where
  "init_locals =
     \<lparr>loc_rc = None, loc_cmd = None, loc_out = None, loc_err = None,
      previous_bucket_type = None\<rparr>"

text \<open>Python's truth value of \<^verbatim>\<open>previous_bucket_type\<close>: \<^verbatim>\<open>None\<close> and the empty
  string are false.\<close>

definition truthy :: "string option \<Rightarrow> bool" where
  "truthy p = (case p of None \<Rightarrow> False | Some x \<Rightarrow> x \<noteq> [])"

text \<open>One pass of the body of the \<^verbatim>\<open>for\<close> loop (lines 85 to 91).\<close>

definition bucket_step ::
  "'w module_env \<Rightarrow> string \<Rightarrow> location \<Rightarrow> string \<Rightarrow> locals \<Rightarrow> 'w sys
     \<Rightarrow> (py_error + locals) \<times> 'w sys" where
  "bucket_step env cluster osd_crush_location crush_bucket_type l s =
     (case fmlookup osd_crush_location crush_bucket_type of
        None \<Rightarrow> (Inr l, s)
      | Some bucket \<Rightarrow>
          (let cmd1 = generate_cmd cluster ''add-bucket'' bucket crush_bucket_type in
           case exec env cmd1 s of
             ((rc1, out1, err1), s1) \<Rightarrow>
               (let l1 = l\<lparr>loc_cmd := Some cmd1, loc_rc := Some rc1,
                            loc_out := Some out1, loc_err := Some err1\<rparr> in
                if truthy (previous_bucket_type l) then
                  (case previous_bucket_type l of
                     None \<Rightarrow> (Inr (l1\<lparr>previous_bucket_type := Some crush_bucket_type\<rparr>), s1)
                   | Some previous \<Rightarrow>
                       (case fmlookup osd_crush_location previous of
                          None \<Rightarrow> (Inl KeyError, s1)
                        | Some child \<Rightarrow>
                            (let cmd2 = generate_cmd cluster ''move'' child
                                          (crush_bucket_type @ ''='' @ bucket) in
                             case exec env cmd2 s1 of
                               ((rc2, out2, err2), s2) \<Rightarrow>
                                 (Inr (l1\<lparr>loc_cmd := Some cmd2, loc_rc := Some rc2,
                                           loc_out := Some out2, loc_err := Some err2,
                                           previous_bucket_type := Some crush_bucket_type\<rparr>),
                                  s2))))
                else (Inr (l1\<lparr>previous_bucket_type := Some crush_bucket_type\<rparr>), s1))))"

text \<open>The \<^verbatim>\<open>for\<close> loop over a list of bucket types; an exception ends it.\<close>

fun bucket_loop ::
  "'w module_env \<Rightarrow> string \<Rightarrow> location \<Rightarrow> string list \<Rightarrow> locals \<Rightarrow> 'w sys
     \<Rightarrow> (py_error + locals) \<times> 'w sys" where
  "bucket_loop env cluster osd_crush_location [] l s = (Inr l, s)"
| "bucket_loop env cluster osd_crush_location (t # ts) l s =
     (case bucket_step env cluster osd_crush_location t l s of
        (Inl e, s') \<Rightarrow> (Inl e, s')
      | (Inr l', s') \<Rightarrow> bucket_loop env cluster osd_crush_location ts l' s')"

text \<open>
  The \<^verbatim>\<open>return\<close> statement reads \<^verbatim>\<open>rc\<close>, \<^verbatim>\<open>cmd\<close>, \<^verbatim>\<open>out\<close> and \<^verbatim>\<open>err\<close>: when
  the body of the loop never ran they are unbound and Python raises
  \<^verbatim>\<open>UnboundLocalError\<close>.
\<close>

definition create_and_move_buckets ::
  "'w module_env \<Rightarrow> string \<Rightarrow> location \<Rightarrow> 'w sys
     \<Rightarrow> (py_error + int \<times> argv \<times> string \<times> string \<times> string option) \<times> 'w sys" where
  "create_and_move_buckets env cluster osd_crush_location s =
     (case bucket_loop env cluster osd_crush_location crush_bucket_types init_locals s of
        (Inl e, s') \<Rightarrow> (Inl e, s')
      | (Inr l, s') \<Rightarrow>
          (case (loc_rc l, loc_cmd l, loc_out l, loc_err l) of
             (Some r, Some c, Some out, Some err) \<Rightarrow>
               (Inr (r, c, out, err, previous_bucket_type l), s')
           | _ \<Rightarrow> (Inl UnboundLocalError, s')))"

subsection \<open>run_module\<close>

definition initial_result :: result where
  "initial_result =
     \<lparr>changed = False, cmd = None, stdout = '''', stderr = '''', rc = RcEmpty,
      start = None, ended = None, delta = None\<rparr>"

text \<open>\<^verbatim>\<open>rstrip(b"\r\n")\<close>: drop every trailing carriage return and line feed.\<close>

definition rstrip_crlf :: "string \<Rightarrow> string" where
  "rstrip_crlf xs = rev (dropWhile (\<lambda>c. c = CHR 0x0D \<or> c = CHR 0x0A) (rev xs))"

text \<open>
  The loop of lines 141 to 144: \<^verbatim>\<open>previous_bucket_type\<close> becomes \<^verbatim>\<open>"Ok"\<close> as soon
  as a bucket type other than \<^verbatim>\<open>host\<close> is a key of the dictionary.
\<close>

definition other_bucket_scan :: "location \<Rightarrow> string list \<Rightarrow> string option \<Rightarrow> string option" where
  "other_bucket_scan location ts p =
     fold (\<lambda>crush_bucket_type previous.
             if crush_bucket_type |\<in>| fmdom location \<and> crush_bucket_type \<noteq> ''host''
             then Some ''Ok'' else previous) ts p"

text \<open>
  The three checks of lines 130 to 148, in the order of the code. Each failing
  check stores its message in \<^verbatim>\<open>stdout\<close>, sets \<^verbatim>\<open>rc\<close> to 1 and calls
  \<^verbatim>\<open>exit_json\<close>; the value here is that message, \<open>None\<close> when all three pass.
\<close>

definition location_checks :: "location \<Rightarrow> string option" where
  "location_checks location =
     (if fcard (fmdom location) < 2 then Some ''You must specify at least 2 buckets.''
      else if ''host'' |\<notin>| fmdom location then
        Some ''You must specify a 'host' bucket.''
      else if other_bucket_scan location crush_bucket_types None = None then
        Some (''It seems a 'host' bucket was specified but the other bucket '' @
              ''types are invalid'')
      else None)"

definition no_valid_bucket_msg :: string where
  "no_valid_bucket_msg =
     ''No valid CRUSH bucket type found, valid buckets can be found at '' @
     ''http://docs.ceph.com/docs/master/rados/operations/crush-map/#crush-structure''"

definition run_module ::
  "'w module_env \<Rightarrow> bool \<Rightarrow> string \<Rightarrow> location \<Rightarrow> 'w sys \<Rightarrow> outcome \<times> 'w sys" where
  "run_module env check_mode cluster location s =
     (if check_mode then (Returned initial_result, s)
      else case location_checks location of
        Some msg \<Rightarrow> (ExitJson (initial_result\<lparr>stdout := msg, rc := RcInt 1\<rparr>), s)
      | None \<Rightarrow>
          (let startd = now env (world s) in
           case create_and_move_buckets env cluster location s of
             (Inl e, s') \<Rightarrow> (Raised e, s')
           | (Inr (r, c, out, err, previous), s') \<Rightarrow>
               (let endd = now env (world s');
                    res = \<lparr>changed = True, cmd = Some c, stdout = rstrip_crlf out,
                           stderr = rstrip_crlf err, rc = RcInt r, start = Some startd,
                           ended = Some endd, delta = Some (endd - startd)\<rparr> in
                if previous = None then
                  (ExitJson (res\<lparr>stdout := no_valid_bucket_msg, rc := RcInt 1\<rparr>), s')
                else if r \<noteq> 0 then (FailJson ''non-zero return code'' res, s')
                else (ExitJson res, s'))))"

text \<open>The result dictionary that an outcome carries, if any.\<close>

fun result_of :: "outcome \<Rightarrow> result option" where
  "result_of (Returned res) = Some res"
| "result_of (ExitJson res) = Some res"
| "result_of (FailJson msg res) = Some res"
| "result_of (Raised e) = None"

section \<open>The command sequence as the specification words it\<close>

text \<open>
  The levels of a list that are keys of the mapping, in the order of the list, each
  with its bucket name.
\<close>

definition present_levels :: "location \<Rightarrow> string list \<Rightarrow> (string \<times> string) list" where
  "present_levels location ts =
     List.map_filter (\<lambda>level. map_option (Pair level) (fmlookup location level)) ts"

text \<open>Create: \<^verbatim>\<open><prog> --cluster <cluster> osd crush add-bucket <bucketName> <bucketType>\<close>.\<close>

definition spec_add_bucket :: "string \<Rightarrow> string \<Rightarrow> string \<Rightarrow> argv" where
  "spec_add_bucket cluster name level =
     [''ceph'', ''--cluster'', cluster, ''osd'', ''crush'', ''add-bucket'', name, level]"

text \<open>Nest: \<^verbatim>\<open><prog> --cluster <cluster> osd crush move <childBucketName>
  <parentType>=<parentBucketName>\<close>.\<close>

definition spec_move :: "string \<Rightarrow> string \<Rightarrow> string \<Rightarrow> string \<Rightarrow> argv" where
  "spec_move cluster child parentType parentName =
     [''ceph'', ''--cluster'', cluster, ''osd'', ''crush'', ''move'', child,
      parentType @ ''='' @ parentName]"

text \<open>
  For each present level a create command and, when a level was processed before
  it, a nest command that puts the bucket of that previous level under the bucket
  of this one.
\<close>

fun spec_commands ::
  "string \<Rightarrow> (string \<times> string) option \<Rightarrow> (string \<times> string) list \<Rightarrow> argv list" where
  "spec_commands cluster previous [] = []"
| "spec_commands cluster previous ((level, name) # rest) =
     spec_add_bucket cluster name level #
     (case previous of
        None \<Rightarrow> []
      | Some (previousLevel, previousName) \<Rightarrow>
          [spec_move cluster previousName level name]) @
     spec_commands cluster (Some (level, name)) rest"

section \<open>Auxiliary definitions\<close>

text \<open>Running a list of commands one after the other.\<close>

fun exec_all :: "'w module_env \<Rightarrow> argv list \<Rightarrow> 'w sys \<Rightarrow> 'w sys" where
  "exec_all env [] s = s"
| "exec_all env (c # cs) s = exec_all env cs (snd (exec env c s))"

text \<open>
  The local variables once the commands of the given present levels have run: the
  last entry of the trace and the last level (unchanged when there was no level).
\<close>

definition locals_after :: "locals \<Rightarrow> 'w sys \<Rightarrow> (string \<times> string) list \<Rightarrow> locals" where
  "locals_after l s levels =
     (if levels = [] then l
      else case last (trace s) of
        (c, r, out, err) \<Rightarrow>
          \<lparr>loc_rc = Some r, loc_cmd = Some c, loc_out = Some out, loc_err = Some err,
           previous_bucket_type = Some (fst (last levels))\<rparr>)"

text \<open>The loop invariant on \<^verbatim>\<open>previous_bucket_type\<close>: a non-empty key of the mapping.\<close>

definition prev_ok :: "location \<Rightarrow> locals \<Rightarrow> bool" where
  "prev_ok location l =
     (case previous_bucket_type l of
        None \<Rightarrow> True
      | Some p \<Rightarrow> p \<noteq> [] \<and> fmlookup location p \<noteq> None)"

definition prev_pair :: "location \<Rightarrow> locals \<Rightarrow> (string \<times> string) option" where
  "prev_pair location l =
     (case previous_bucket_type l of
        None \<Rightarrow> None
      | Some p \<Rightarrow> map_option (Pair p) (fmlookup location p))"

section \<open>Environments and mappings of the concrete runs\<close>

text \<open>Every command succeeds.\<close>

definition succeeding_env :: "unit module_env" where
  "succeeding_env =
     \<lparr>run_command = (\<lambda>c w. ((0, ''done'' @ [CHR 0x0A], ''''), w)), now = (\<lambda>w. 0)\<rparr>"

text \<open>Every command fails with exit code 1.\<close>

definition failing_env :: "unit module_env" where
  "failing_env =
     \<lparr>run_command = (\<lambda>c w. ((1, '''', ''Error EINVAL'' @ [CHR 0x0A]), w)),
      now = (\<lambda>w. 0)\<rparr>"

text \<open>
  The world counts the commands that have run; the first command fails with exit
  code 1, every later one succeeds.
\<close>

definition fail_first_env :: "nat module_env" where
  "fail_first_env =
     \<lparr>run_command =
        (\<lambda>c n. (if n = 0 then (1, '''', ''Error EINVAL'') else (0, ''done'', ''''), Suc n)),
      now = (\<lambda>n. int n)\<rparr>"

definition fresh :: "'w \<Rightarrow> 'w sys" where
  "fresh w = \<lparr>world = w, trace = []\<rparr>"

text \<open>Examples 1 and 3 of the specification, and mappings that fail a check.\<close>

definition host_rack :: location where
  "host_rack = fmap_of_list [(''host'', ''node1''), (''rack'', ''rackA'')]"

definition host_rack_root :: location where
  "host_rack_root =
     fmap_of_list [(''host'', ''node1''), (''rack'', ''rackA''), (''root'', ''default'')]"

definition host_only :: location where
  "host_only = fmap_of_list [(''host'', ''node1'')]"

definition host_shelf :: location where
  "host_shelf = fmap_of_list [(''host'', ''node1''), (''shelf'', ''s1'')]"

definition rack_root :: location where
  "rack_root = fmap_of_list [(''rack'', ''rackA''), (''root'', ''default'')]"

section \<open>Lemmas\<close>

subsection \<open>Present levels\<close>

lemma present_levels_Nil [simp]: "present_levels location [] = []"
  by (simp add: present_levels_def map_filter_simps)

lemma present_levels_Cons:
  "present_levels location (t # ts) =
     (case fmlookup location t of
        None \<Rightarrow> present_levels location ts
      | Some name \<Rightarrow> (t, name) # present_levels location ts)"
  by (simp add: present_levels_def map_filter_simps split: option.splits)

lemma map_fst_present_levels:
  "map fst (present_levels location ts) = filter (\<lambda>t. t |\<in>| fmdom location) ts"
  by (induction ts) (auto simp: present_levels_Cons fmlookup_dom_iff split: option.splits)

lemma present_levels_lookup:
  "(t, name) \<in> set (present_levels location ts) \<Longrightarrow> fmlookup location t = Some name"
  by (induction ts) (auto simp: present_levels_Cons split: option.splits)

subsection \<open>The trace\<close>

lemma trace_exec: "trace (snd (exec env c s)) = trace s @ [(c, fst (exec env c s))]"
  by (simp add: exec_def split: prod.splits)

lemma trace_exec_all:
  "\<exists>zs. trace (exec_all env cs s) = trace s @ zs \<and> map fst zs = cs"
proof (induction cs arbitrary: s)
  case Nil
  then show ?case by simp
next
  case (Cons c cs)
  from Cons.IH [of "snd (exec env c s)"] obtain zs where
    "trace (exec_all env cs (snd (exec env c s))) = trace (snd (exec env c s)) @ zs"
    "map fst zs = cs" by blast
  then show ?case by (simp add: trace_exec)
qed

lemma exec_all_append: "exec_all env (cs @ ds) s = exec_all env ds (exec_all env cs s)"
  by (induction cs arbitrary: s) simp_all

subsection \<open>One pass of the loop body\<close>

lemma bucket_step_absent:
  "fmlookup location t = None \<Longrightarrow> bucket_step env cluster location t l s = (Inr l, s)"
  by (simp add: bucket_step_def)

lemma bucket_step_first:
  assumes "fmlookup location t = Some name" "previous_bucket_type l = None"
  shows "bucket_step env cluster location t l s =
           (case exec env (spec_add_bucket cluster name t) s of
              ((r, out, err), s1) \<Rightarrow>
                (Inr \<lparr>loc_rc = Some r, loc_cmd = Some (spec_add_bucket cluster name t),
                      loc_out = Some out, loc_err = Some err,
                      previous_bucket_type = Some t\<rparr>, s1))"
  using assms
  by (simp add: bucket_step_def truthy_def generate_cmd_def spec_add_bucket_def
      split: prod.splits)

lemma bucket_step_next:
  assumes "fmlookup location t = Some name" "previous_bucket_type l = Some p" "p \<noteq> []"
    "fmlookup location p = Some child"
  shows "bucket_step env cluster location t l s =
           (case exec env (spec_move cluster child t name)
                   (snd (exec env (spec_add_bucket cluster name t) s)) of
              ((r, out, err), s2) \<Rightarrow>
                (Inr \<lparr>loc_rc = Some r, loc_cmd = Some (spec_move cluster child t name),
                      loc_out = Some out, loc_err = Some err,
                      previous_bucket_type = Some t\<rparr>, s2))"
  using assms
  by (simp add: bucket_step_def truthy_def generate_cmd_def spec_add_bucket_def
      spec_move_def split: prod.splits)

subsection \<open>The loop\<close>

lemma bucket_loop_eq:
  assumes "\<forall>t\<in>set ts. t \<noteq> []" "prev_ok location l"
  shows "bucket_loop env cluster location ts l s =
           (let s' = exec_all env
                       (spec_commands cluster (prev_pair location l)
                          (present_levels location ts)) s
            in (Inr (locals_after l s' (present_levels location ts)), s'))"
  using assms
proof (induction ts arbitrary: l s)
  case Nil
  then show ?case by (simp add: locals_after_def)
next
  case (Cons t ts)
  have t: "t \<noteq> []" and ts: "\<forall>t\<in>set ts. t \<noteq> []" using Cons.prems by auto
  show ?case
  proof (cases "fmlookup location t")
    case None
    then show ?thesis
      using Cons.IH [OF ts Cons.prems(2)]
      by (simp add: bucket_step_absent present_levels_Cons)
  next
    case (Some name)
    let ?lv = "present_levels location ts"
    obtain l1 s1 where step: "bucket_step env cluster location t l s = (Inr l1, s1)"
      and l1: "l1 = \<lparr>loc_rc = Some (fst (snd (last (trace s1)))),
                     loc_cmd = Some (fst (last (trace s1))),
                     loc_out = Some (fst (snd (snd (last (trace s1))))),
                     loc_err = Some (snd (snd (snd (last (trace s1))))),
                     previous_bucket_type = Some t\<rparr>"
      and s1: "s1 = exec_all env
                     (spec_add_bucket cluster name t #
                      (case prev_pair location l of
                         None \<Rightarrow> []
                       | Some (pl, pn) \<Rightarrow> [spec_move cluster pn t name])) s"
    proof (cases "previous_bucket_type l")
      case None
      show ?thesis
        by (rule that [of _ "snd (exec env (spec_add_bucket cluster name t) s)"])
           (simp_all add: bucket_step_first [OF Some None] prev_pair_def None exec_def
              split: prod.splits)
    next
      case (Some p)
      with Cons.prems(2) obtain child where p: "p \<noteq> []" "fmlookup location p = Some child"
        by (auto simp: prev_ok_def)
      show ?thesis
        by (rule that [of _ "snd (exec env (spec_move cluster child t name)
                   (snd (exec env (spec_add_bucket cluster name t) s)))"])
           (simp_all add: bucket_step_next [OF \<open>fmlookup location t = Some name\<close> Some p]
              prev_pair_def Some p exec_def split: prod.splits)
    qed
    have ok1: "prev_ok location l1" using t Some by (simp add: l1 prev_ok_def)
    have pp1: "prev_pair location l1 = Some (t, name)"
      using Some by (simp add: l1 prev_pair_def)
    have la: "locals_after l s' ((t, name) # ?lv) = locals_after l1 s' ?lv"
      if "?lv = [] \<longrightarrow> s' = s1" for s'
      using that by (auto simp: locals_after_def l1 split: prod.splits)
    show ?thesis
      using Cons.IH [OF ts ok1, of s1] la
      by (simp add: step present_levels_Cons Some pp1 s1 exec_all_append Let_def
          split: option.splits prod.splits)
  qed
qed

subsection \<open>The bucket types and the checks\<close>

lemma crush_bucket_types_nonempty: "\<forall>t\<in>set crush_bucket_types. t \<noteq> []"
  by (simp add: crush_bucket_types_def)

lemma host_in_types: "''host'' \<in> set crush_bucket_types"
  by (simp add: crush_bucket_types_def)

lemma other_bucket_scan_None:
  "other_bucket_scan location ts p = None \<longleftrightarrow>
     p = None \<and> \<not> (\<exists>t\<in>set ts. t |\<in>| fmdom location \<and> t \<noteq> ''host'')"
  unfolding other_bucket_scan_def
  by (induction ts arbitrary: p) auto

lemma location_checks_None:
  "location_checks location = None \<longleftrightarrow>
     2 \<le> fcard (fmdom location) \<and> ''host'' |\<in>| fmdom location \<and>
     (\<exists>t\<in>set crush_bucket_types. t |\<in>| fmdom location \<and> t \<noteq> ''host'')"
  by (auto simp: location_checks_def other_bucket_scan_None)

lemma two_distinct_length:
  assumes "a \<in> set xs" "b \<in> set xs" "a \<noteq> b"
  shows "2 \<le> length xs"
proof -
  have "card {a, b} \<le> card (set xs)" using assms by (intro card_mono) auto
  also have "\<dots> \<le> length xs" by (rule card_length)
  finally show ?thesis using assms(3) by simp
qed

lemma valid_present_levels:
  assumes "location_checks location = None"
  shows "2 \<le> length (present_levels location crush_bucket_types)"
proof -
  from assms obtain t where
    t: "t \<in> set crush_bucket_types" "t |\<in>| fmdom location" "t \<noteq> ''host''"
    and h: "''host'' |\<in>| fmdom location"
    by (auto simp: location_checks_None)
  let ?xs = "filter (\<lambda>t. t |\<in>| fmdom location) crush_bucket_types"
  have "''host'' \<in> set ?xs" "t \<in> set ?xs" using t h host_in_types by auto
  then have "2 \<le> length ?xs"
    using t(3) by (intro two_distinct_length [of "''host''" _ t]) auto
  then show ?thesis
    by (metis length_map map_fst_present_levels)
qed

subsection \<open>create_and_move_buckets in closed form\<close>

lemma create_and_move_buckets_eq:
  "create_and_move_buckets env cluster location s =
     (let lv = present_levels location crush_bucket_types;
          s' = exec_all env (spec_commands cluster None lv) s
      in if lv = [] then (Inl UnboundLocalError, s)
         else case last (trace s') of
           (c, r, out, err) \<Rightarrow> (Inr (r, c, out, err, Some (fst (last lv))), s'))"
proof -
  have ok: "prev_ok location init_locals" by (simp add: prev_ok_def init_locals_def)
  have pp: "prev_pair location init_locals = None"
    by (simp add: prev_pair_def init_locals_def)
  show ?thesis
    unfolding create_and_move_buckets_def
      bucket_loop_eq [OF crush_bucket_types_nonempty ok] pp
    by (simp add: Let_def locals_after_def init_locals_def split: prod.splits)
qed

subsection \<open>The commands that a run executes\<close>

lemma create_and_move_buckets_trace:
  "map fst (trace (snd (create_and_move_buckets env cluster location s))) =
     map fst (trace s) @
     spec_commands cluster None (present_levels location crush_bucket_types)"
proof -
  let ?cs = "spec_commands cluster None (present_levels location crush_bucket_types)"
  obtain zs where zs: "trace (exec_all env ?cs s) = trace s @ zs" "map fst zs = ?cs"
    using trace_exec_all by blast
  show ?thesis
    by (auto simp: create_and_move_buckets_eq Let_def zs split: prod.splits)
qed

lemma run_module_trace:
  "map fst (trace (snd (run_module env check_mode cluster location s))) =
     map fst (trace s) @
     (if check_mode \<or> location_checks location \<noteq> None then []
      else spec_commands cluster None (present_levels location crush_bucket_types))"
proof (cases "check_mode \<or> location_checks location \<noteq> None")
  case True
  then show ?thesis by (auto simp: run_module_def)
next
  case False
  have "snd (run_module env check_mode cluster location s) =
          snd (create_and_move_buckets env cluster location s)"
    using False by (auto simp: run_module_def Let_def split: prod.splits sum.splits)
  then show ?thesis using False by (simp add: create_and_move_buckets_trace)
qed

lemma spec_commands_move:
  assumes "c \<in> set (spec_commands cluster previous lv)" "c ! 5 = ''move''"
  shows "\<exists>child level name. (level, name) \<in> set lv \<and> c = spec_move cluster child level name"
  using assms
proof (induction lv arbitrary: previous)
  case Nil
  then show ?case by simp
next
  case (Cons a lv)
  obtain level name where a: "a = (level, name)" by (cases a)
  from Cons.prems consider
      "c = spec_add_bucket cluster name level"
    | "\<exists>child. c = spec_move cluster child level name"
    | "c \<in> set (spec_commands cluster (Some (level, name)) lv)"
    by (auto simp: a split: option.splits)
  then show ?case
  proof cases
    case 1
    with Cons.prems(2) show ?thesis by (simp add: spec_add_bucket_def)
  next
    case 2
    then show ?thesis by (auto simp: a)
  next
    case 3
    from Cons.IH [OF this Cons.prems(2)] show ?thesis by auto
  qed
qed

subsection \<open>Unfolding the model on a concrete run\<close>

lemmas eval_defs =
  create_and_move_buckets_def crush_bucket_types_def bucket_step_def exec_def
  init_locals_def truthy_def generate_cmd_def fresh_def Let_def
  host_rack_def host_rack_root_def host_only_def host_shelf_def rack_root_def
  succeeding_env_def failing_env_def fail_first_env_def

subsection \<open>The specified commands and the run of a valid mapping\<close>

lemma spec_commands_nonempty: "lv \<noteq> [] \<Longrightarrow> spec_commands cluster previous lv \<noteq> []"
  by (cases lv) auto

lemma spec_commands_adds:
  "filter (\<lambda>c. c ! 5 = ''add-bucket'') (spec_commands cluster previous lv) =
     map (\<lambda>(level, name). generate_cmd cluster ''add-bucket'' name level) lv"
  by (induction lv arbitrary: previous)
     (auto simp: spec_add_bucket_def spec_move_def generate_cmd_def split: option.splits)

lemma spec_commands_moves:
  "length (filter (\<lambda>c. c ! 5 = ''move'') (spec_commands cluster previous lv)) =
     (if previous = None then length lv - 1 else length lv)"
  by (induction lv arbitrary: previous)
     (auto simp: spec_add_bucket_def spec_move_def split: option.splits)

text \<open>The run of a mapping that passes the checks, in closed form.\<close>

lemma run_module_valid:
  assumes "location_checks location = None"
  shows "\<exists>new c r out err level name.
           trace (exec_all env (spec_commands cluster None
                    (present_levels location crush_bucket_types)) s) = trace s @ new \<and>
           map fst new = spec_commands cluster None
                    (present_levels location crush_bucket_types) \<and>
           new \<noteq> [] \<and> last new = (c, r, out, err) \<and>
           present_levels location crush_bucket_types \<noteq> [] \<and>
           last (present_levels location crush_bucket_types) = (level, name) \<and>
           create_and_move_buckets env cluster location s =
             (Inr (r, c, out, err, Some level),
              exec_all env (spec_commands cluster None
                    (present_levels location crush_bucket_types)) s) \<and>
           run_module env False cluster location s =
             (let s' = exec_all env (spec_commands cluster None
                         (present_levels location crush_bucket_types)) s;
                  res = \<lparr>changed = True, cmd = Some c, stdout = rstrip_crlf out,
                         stderr = rstrip_crlf err, rc = RcInt r,
                         start = Some (now env (world s)),
                         ended = Some (now env (world s')),
                         delta = Some (now env (world s') - now env (world s))\<rparr>
              in (if r \<noteq> 0 then FailJson ''non-zero return code'' res else ExitJson res, s'))"
proof -
  let ?lv = "present_levels location crush_bucket_types"
  let ?cs = "spec_commands cluster None ?lv"
  have lv: "?lv \<noteq> []" using valid_present_levels [OF assms] by auto
  then have cs: "?cs \<noteq> []" by (rule spec_commands_nonempty)
  obtain zs where zs: "trace (exec_all env ?cs s) = trace s @ zs" "map fst zs = ?cs"
    using trace_exec_all by blast
  with cs have nz: "zs \<noteq> []" by auto
  obtain c r out err where l: "last zs = (c, r, out, err)" by (metis prod_cases4)
  obtain level name where ll: "last ?lv = (level, name)" by (metis prod.exhaust)
  have cm: "create_and_move_buckets env cluster location s =
              (Inr (r, c, out, err, Some level), exec_all env ?cs s)"
    using lv nz l ll by (simp add: create_and_move_buckets_eq Let_def zs)
  show ?thesis
    apply (rule exI [of _ zs], rule exI [of _ c], rule exI [of _ r], rule exI [of _ out],
        rule exI [of _ err], rule exI [of _ level], rule exI [of _ name])
    using zs nz l lv ll cm assms
    by (simp add: run_module_def Let_def)
qed

lemma present_levels_restrict:
  "set ts \<subseteq> A \<Longrightarrow> present_levels (fmrestrict_set A location) ts = present_levels location ts"
  by (induction ts) (auto simp: present_levels_Cons split: option.splits)

lemma present_levels_fmupd:
  "k \<notin> set ts \<Longrightarrow> present_levels (fmupd k v location) ts = present_levels location ts"
  by (induction ts) (auto simp: present_levels_Cons split: option.splits)

lemma present_levels_host:
  assumes "location_checks location = None"
  shows "\<exists>host_name rest.
           present_levels location crush_bucket_types = (''host'', host_name) # rest
           \<and> rest \<noteq> [] \<and> fmlookup location ''host'' = Some host_name
           \<and> (\<forall>level \<in> set (map fst rest).
                 level \<noteq> ''host'' \<and> level \<in> set crush_bucket_types)"
proof -
  let ?tl = "[''chassis'', ''rack'', ''row'', ''pdu'', ''pod'', ''room'',
              ''datacenter'', ''region'', ''root'']"
  from assms obtain host_name where h: "fmlookup location ''host'' = Some host_name"
    by (auto simp: location_checks_None fmlookup_dom_iff)
  have eq: "present_levels location crush_bucket_types =
              (''host'', host_name) # present_levels location ?tl"
    by (simp add: crush_bucket_types_def present_levels_Cons h)
  have "2 \<le> length (present_levels location crush_bucket_types)"
    by (rule valid_present_levels [OF assms])
  then have ne: "present_levels location ?tl \<noteq> []" unfolding eq by auto
  have "level \<noteq> ''host'' \<and> level \<in> set crush_bucket_types"
    if "level \<in> set (map fst (present_levels location ?tl))" for level
  proof -
    from that have "level \<in> set ?tl"
      unfolding map_fst_present_levels set_filter by blast
    then show ?thesis by (auto simp: crush_bucket_types_def)
  qed
  then show ?thesis using eq ne h by blast
qed

subsection \<open>Evaluating the checks on a concrete mapping\<close>

lemmas check_defs = location_checks_def other_bucket_scan_def fcard_finsert_if

lemma valid_host_rack: "location_checks host_rack = None"
  by (simp add: check_defs host_rack_def crush_bucket_types_def)

section \<open>The claims\<close>

text \<open>
  C1. For every mapping that passes the checks, \<^verbatim>\<open>create_and_move_buckets\<close> executes
  exactly the commands of the specification: the levels of the fixed list
  (host, chassis, rack, row, pdu, pod, room, datacenter, region, root) that are keys
  of the mapping, in that order; for each of them \<^verbatim>\<open>add-bucket name level\<close>, and
  for each but the first also \<^verbatim>\<open>move previousName level=name\<close>, right after its
  \<^verbatim>\<open>add-bucket\<close>. The create commands are those of the present levels in order,
  and there is one move command less than there are present levels.
\<close>

theorem create_and_move_buckets_commands:
  assumes "location_checks location = None"
  shows "map fst (trace (snd (create_and_move_buckets env cluster location s))) =
           map fst (trace s) @
           spec_commands cluster None (present_levels location crush_bucket_types)
         \<and> map fst (present_levels location crush_bucket_types) =
             filter (\<lambda>level. level |\<in>| fmdom location) crush_bucket_types
         \<and> (\<forall>(level, name) \<in> set (present_levels location crush_bucket_types).
               fmlookup location level = Some name)
         \<and> filter (\<lambda>c. c ! 5 = ''add-bucket'')
               (spec_commands cluster None (present_levels location crush_bucket_types)) =
             map (\<lambda>(level, name). generate_cmd cluster ''add-bucket'' name level)
               (present_levels location crush_bucket_types)
         \<and> length (filter (\<lambda>c. c ! 5 = ''move'')
               (spec_commands cluster None (present_levels location crush_bucket_types))) =
             length (present_levels location crush_bucket_types) - 1"
proof (intro conjI)
  show "\<forall>(level, name) \<in> set (present_levels location crush_bucket_types).
          fmlookup location level = Some name"
    by (auto dest: present_levels_lookup)
qed (simp_all add: create_and_move_buckets_trace map_fst_present_levels
      spec_commands_adds spec_commands_moves)

theorem create_and_move_buckets_commands_witness:
  "location_checks host_rack_root = None
   \<and> map fst (trace (snd (create_and_move_buckets succeeding_env ''ceph'' host_rack_root
                           (fresh ())))) =
     [[''ceph'', ''--cluster'', ''ceph'', ''osd'', ''crush'', ''add-bucket'', ''node1'',
       ''host''],
      [''ceph'', ''--cluster'', ''ceph'', ''osd'', ''crush'', ''add-bucket'', ''rackA'',
       ''rack''],
      [''ceph'', ''--cluster'', ''ceph'', ''osd'', ''crush'', ''move'', ''node1'',
       ''rack=rackA''],
      [''ceph'', ''--cluster'', ''ceph'', ''osd'', ''crush'', ''add-bucket'', ''default'',
       ''root''],
      [''ceph'', ''--cluster'', ''ceph'', ''osd'', ''crush'', ''move'', ''rackA'',
       ''root=default'']]
   \<and> present_levels host_rack_root crush_bucket_types =
       [(''host'', ''node1''), (''rack'', ''rackA''), (''root'', ''default'')]"
proof -
  have v: "location_checks host_rack_root = None"
    by (simp add: check_defs host_rack_root_def crush_bucket_types_def)
  have p: "present_levels host_rack_root crush_bucket_types =
       [(''host'', ''node1''), (''rack'', ''rackA''), (''root'', ''default'')]"
    by (simp add: present_levels_Cons host_rack_root_def crush_bucket_types_def)
  show ?thesis
    using create_and_move_buckets_commands [OF v, of succeeding_env "''ceph''" "fresh ()"]
    by (simp add: v p fresh_def spec_add_bucket_def spec_move_def)
qed

text \<open>
  C2. Outside check mode the three checks run in order and the first that fails
  ends the run: fewer than two entries; else no key \<^verbatim>\<open>host\<close>; else no key other
  than \<^verbatim>\<open>host\<close> among the ten bucket types. Each time the run ends in
  \<^verbatim>\<open>exit_json\<close> with \<^verbatim>\<open>rc\<close> 1, the message of that check in \<^verbatim>\<open>stdout\<close>, and no
  command executed (world and trace unchanged). A mapping for which none of the
  three fails passes the checks.
\<close>

theorem validation_rejects:
  "(fcard (fmdom location) < 2 \<longrightarrow>
      run_module env False cluster location s =
        (ExitJson \<lparr>changed = False, cmd = None,
                   stdout = ''You must specify at least 2 buckets.'', stderr = '''',
                   rc = RcInt 1, start = None, ended = None, delta = None\<rparr>, s))
   \<and> (2 \<le> fcard (fmdom location) \<and> ''host'' |\<notin>| fmdom location \<longrightarrow>
      run_module env False cluster location s =
        (ExitJson \<lparr>changed = False, cmd = None,
                   stdout = ''You must specify a 'host' bucket.'', stderr = '''',
                   rc = RcInt 1, start = None, ended = None, delta = None\<rparr>, s))
   \<and> (2 \<le> fcard (fmdom location) \<and> ''host'' |\<in>| fmdom location \<and>
       \<not> (\<exists>k. k |\<in>| fmdom location \<and> k \<noteq> ''host'' \<and> k \<in> set crush_bucket_types) \<longrightarrow>
      run_module env False cluster location s =
        (ExitJson \<lparr>changed = False, cmd = None,
                   stdout = ''It seems a 'host' bucket was specified but the other bucket types are invalid'',
                   stderr = '''', rc = RcInt 1, start = None, ended = None,
                   delta = None\<rparr>, s))
   \<and> (2 \<le> fcard (fmdom location) \<and> ''host'' |\<in>| fmdom location \<and>
       (\<exists>k. k |\<in>| fmdom location \<and> k \<noteq> ''host'' \<and> k \<in> set crush_bucket_types) \<longrightarrow>
      location_checks location = None)"
proof -
  have scan: "other_bucket_scan location crush_bucket_types None = None \<longleftrightarrow>
      \<not> (\<exists>k. k |\<in>| fmdom location \<and> k \<noteq> ''host'' \<and> k \<in> set crush_bucket_types)"
    by (auto simp: other_bucket_scan_None)
  show ?thesis
    by (simp add: run_module_def location_checks_def initial_result_def scan not_less)
qed

theorem validation_rejects_witness:
  "run_module succeeding_env False ''ceph'' host_only (fresh ()) =
     (ExitJson \<lparr>changed = False, cmd = None,
                stdout = ''You must specify at least 2 buckets.'', stderr = '''',
                rc = RcInt 1, start = None, ended = None, delta = None\<rparr>, fresh ())
   \<and> run_module succeeding_env False ''ceph'' rack_root (fresh ()) =
     (ExitJson \<lparr>changed = False, cmd = None,
                stdout = ''You must specify a 'host' bucket.'', stderr = '''',
                rc = RcInt 1, start = None, ended = None, delta = None\<rparr>, fresh ())
   \<and> run_module succeeding_env False ''ceph'' host_shelf (fresh ()) =
     (ExitJson \<lparr>changed = False, cmd = None,
                stdout = ''It seems a 'host' bucket was specified but the other bucket types are invalid'',
                stderr = '''', rc = RcInt 1, start = None, ended = None,
                delta = None\<rparr>, fresh ())
   \<and> location_checks host_rack = None"
proof -
  have 1: "fcard (fmdom host_only) < 2"
    by (simp add: host_only_def fcard_finsert_if)
  have 2: "2 \<le> fcard (fmdom rack_root) \<and> ''host'' |\<notin>| fmdom rack_root"
    by (simp add: rack_root_def fcard_finsert_if)
  have 3: "2 \<le> fcard (fmdom host_shelf) \<and> ''host'' |\<in>| fmdom host_shelf \<and>
       \<not> (\<exists>k. k |\<in>| fmdom host_shelf \<and> k \<noteq> ''host'' \<and> k \<in> set crush_bucket_types)"
    by (auto simp: host_shelf_def fcard_finsert_if crush_bucket_types_def)
  have 4: "2 \<le> fcard (fmdom host_rack) \<and> ''host'' |\<in>| fmdom host_rack \<and>
       (\<exists>k. k |\<in>| fmdom host_rack \<and> k \<noteq> ''host'' \<and> k \<in> set crush_bucket_types)"
    by (auto simp: host_rack_def fcard_finsert_if crush_bucket_types_def)
  show ?thesis
    using validation_rejects [of host_only succeeding_env "''ceph''" "fresh ()"]
      validation_rejects [of rack_root succeeding_env "''ceph''" "fresh ()"]
      validation_rejects [of host_shelf succeeding_env "''ceph''" "fresh ()"]
      validation_rejects [of host_rack succeeding_env "''ceph''" "fresh ()"]
      1 2 3 4
    by simp
qed

text \<open>
  C3. For every mapping that passes the checks and every environment, whatever
  exit codes it answers, the loop runs to its end: all the commands of the present
  levels are executed one after the other, the level returned as
  \<^verbatim>\<open>previous_bucket_type\<close> is the last present level, and the exit code, command,
  output and error output returned are those of the last executed command; they
  are what \<^verbatim>\<open>run_module\<close> reports in \<^verbatim>\<open>rc\<close>, \<^verbatim>\<open>cmd\<close>, \<^verbatim>\<open>stdout\<close> and
  \<^verbatim>\<open>stderr\<close> (the last two with trailing line ends stripped).
\<close>

theorem last_command_reported:
  assumes "location_checks location = None"
  shows "\<exists>new c r out err level name s' res.
           create_and_move_buckets env cluster location s =
             (Inr (r, c, out, err, Some level), s')
           \<and> s' = exec_all env (spec_commands cluster None
                     (present_levels location crush_bucket_types)) s
           \<and> trace s' = trace s @ new
           \<and> map fst new =
               spec_commands cluster None (present_levels location crush_bucket_types)
           \<and> new \<noteq> [] \<and> last new = (c, r, out, err)
           \<and> last (present_levels location crush_bucket_types) = (level, name)
           \<and> snd (run_module env False cluster location s) = s'
           \<and> result_of (fst (run_module env False cluster location s)) = Some res
           \<and> rc res = RcInt r \<and> cmd res = Some c
           \<and> stdout res = rstrip_crlf out \<and> stderr res = rstrip_crlf err"
proof -
  from run_module_valid [OF assms, of env cluster s]
  obtain new c r out err level name where
    h: "trace (exec_all env (spec_commands cluster None
          (present_levels location crush_bucket_types)) s) = trace s @ new"
       "map fst new = spec_commands cluster None
          (present_levels location crush_bucket_types)"
       "new \<noteq> []" "last new = (c, r, out, err)"
       "last (present_levels location crush_bucket_types) = (level, name)"
       "create_and_move_buckets env cluster location s =
          (Inr (r, c, out, err, Some level),
           exec_all env (spec_commands cluster None
             (present_levels location crush_bucket_types)) s)"
    and rm: "run_module env False cluster location s =
             (let s' = exec_all env (spec_commands cluster None
                         (present_levels location crush_bucket_types)) s;
                  res = \<lparr>changed = True, cmd = Some c, stdout = rstrip_crlf out,
                         stderr = rstrip_crlf err, rc = RcInt r,
                         start = Some (now env (world s)),
                         ended = Some (now env (world s')),
                         delta = Some (now env (world s') - now env (world s))\<rparr>
              in (if r \<noteq> 0 then FailJson ''non-zero return code'' res else ExitJson res, s'))"
    by blast
  show ?thesis
    apply (rule exI [of _ new], rule exI [of _ c], rule exI [of _ r], rule exI [of _ out],
        rule exI [of _ err], rule exI [of _ level], rule exI [of _ name])
    using h by (simp add: rm Let_def)
qed

theorem last_command_reported_witness:
  "location_checks host_rack = None
   \<and> create_and_move_buckets fail_first_env ''ceph'' host_rack (fresh 0) =
       (Inr (0, [''ceph'', ''--cluster'', ''ceph'', ''osd'', ''crush'', ''move'', ''node1'',
                 ''rack=rackA''], ''done'', '''', Some ''rack''),
        \<lparr>world = 3,
         trace =
           [([''ceph'', ''--cluster'', ''ceph'', ''osd'', ''crush'', ''add-bucket'',
              ''node1'', ''host''], 1, '''', ''Error EINVAL''),
            ([''ceph'', ''--cluster'', ''ceph'', ''osd'', ''crush'', ''add-bucket'',
              ''rackA'', ''rack''], 0, ''done'', ''''),
            ([''ceph'', ''--cluster'', ''ceph'', ''osd'', ''crush'', ''move'',
              ''node1'', ''rack=rackA''], 0, ''done'', '''')]\<rparr>)
   \<and> result_of (fst (run_module fail_first_env False ''ceph'' host_rack (fresh 0))) =
       Some \<lparr>changed = True,
             cmd = Some [''ceph'', ''--cluster'', ''ceph'', ''osd'', ''crush'', ''move'',
                         ''node1'', ''rack=rackA''],
             stdout = ''done'', stderr = '''', rc = RcInt 0, start = Some 0,
             ended = Some 3, delta = Some 3\<rparr>"
proof -
  have a: "create_and_move_buckets fail_first_env ''ceph'' host_rack (fresh 0) =
       (Inr (0, [''ceph'', ''--cluster'', ''ceph'', ''osd'', ''crush'', ''move'', ''node1'',
                 ''rack=rackA''], ''done'', '''', Some ''rack''),
        \<lparr>world = 3,
         trace =
           [([''ceph'', ''--cluster'', ''ceph'', ''osd'', ''crush'', ''add-bucket'',
              ''node1'', ''host''], 1, '''', ''Error EINVAL''),
            ([''ceph'', ''--cluster'', ''ceph'', ''osd'', ''crush'', ''add-bucket'',
              ''rackA'', ''rack''], 0, ''done'', ''''),
            ([''ceph'', ''--cluster'', ''ceph'', ''osd'', ''crush'', ''move'',
              ''node1'', ''rack=rackA''], 0, ''done'', '''')]\<rparr>)"
    by (simp add: eval_defs)
  have b: "result_of (fst (run_module fail_first_env False ''ceph'' host_rack (fresh 0))) =
       Some \<lparr>changed = True,
             cmd = Some [''ceph'', ''--cluster'', ''ceph'', ''osd'', ''crush'', ''move'',
                         ''node1'', ''rack=rackA''],
             stdout = ''done'', stderr = '''', rc = RcInt 0, start = Some 0,
             ended = Some 3, delta = Some 3\<rparr>"
    by (simp add: run_module_def check_defs eval_defs rstrip_crlf_def)
  show ?thesis
    using last_command_reported [OF valid_host_rack, of fail_first_env "''ceph''" "fresh 0"]
      valid_host_rack a b
    by (intro conjI) assumption+
qed

text \<open>
  C4, as stated, fails: when the first command exits with 1 and the later ones
  with 0, the run ends in \<^verbatim>\<open>exit_json\<close> with \<^verbatim>\<open>rc\<close> 0.
\<close>

theorem earlier_failure_not_surfaced:
  "run_module fail_first_env False ''ceph'' host_rack (fresh 0) =
     (ExitJson
        \<lparr>changed = True,
         cmd = Some [''ceph'', ''--cluster'', ''ceph'', ''osd'', ''crush'', ''move'',
                     ''node1'', ''rack=rackA''],
         stdout = ''done'', stderr = '''', rc = RcInt 0, start = Some 0,
         ended = Some 3, delta = Some 3\<rparr>,
      \<lparr>world = 3,
       trace =
         [([''ceph'', ''--cluster'', ''ceph'', ''osd'', ''crush'', ''add-bucket'',
            ''node1'', ''host''], 1, '''', ''Error EINVAL''),
          ([''ceph'', ''--cluster'', ''ceph'', ''osd'', ''crush'', ''add-bucket'',
            ''rackA'', ''rack''], 0, ''done'', ''''),
          ([''ceph'', ''--cluster'', ''ceph'', ''osd'', ''crush'', ''move'',
            ''node1'', ''rack=rackA''], 0, ''done'', '''')]\<rparr>)"
  by (simp add: run_module_def check_defs eval_defs rstrip_crlf_def)

text \<open>
  C4, amended. A mapping that fails a check ends the run with \<^verbatim>\<open>rc\<close> 1 and a
  non-empty message in \<^verbatim>\<open>stdout\<close>. For a mapping that passes the checks, the
  result carries the exit code, command and outputs of the last executed command,
  and the run ends in \<^verbatim>\<open>fail_json\<close> with the message
  \<^verbatim>\<open>non-zero return code\<close> exactly when that last exit code is not zero.
\<close>

theorem failure_paths:
  "(location_checks location = Some msg \<longrightarrow>
      msg \<noteq> [] \<and>
      run_module env False cluster location s =
        (ExitJson (initial_result\<lparr>stdout := msg, rc := RcInt 1\<rparr>), s))
   \<and> (location_checks location = None \<longrightarrow>
        (\<exists>new c r out err res.
           trace (snd (run_module env False cluster location s)) = trace s @ new
           \<and> new \<noteq> [] \<and> last new = (c, r, out, err)
           \<and> rc res = RcInt r \<and> cmd res = Some c
           \<and> stdout res = rstrip_crlf out \<and> stderr res = rstrip_crlf err
           \<and> fst (run_module env False cluster location s) =
               (if r \<noteq> 0 then FailJson ''non-zero return code'' res else ExitJson res)))"
proof (intro conjI impI)
  assume m: "location_checks location = Some msg"
  then show "msg \<noteq> []" by (auto simp: location_checks_def split: if_splits)
  from m show "run_module env False cluster location s =
        (ExitJson (initial_result\<lparr>stdout := msg, rc := RcInt 1\<rparr>), s)"
    by (simp add: run_module_def)
next
  assume v: "location_checks location = None"
  let ?s' = "exec_all env (spec_commands cluster None
                         (present_levels location crush_bucket_types)) s"
  from run_module_valid [OF v, of env cluster s]
  obtain new c r out err where
    h: "trace ?s' = trace s @ new" "new \<noteq> []" "last new = (c, r, out, err)"
    and rm: "run_module env False cluster location s =
             (let s' = ?s';
                  res = \<lparr>changed = True, cmd = Some c, stdout = rstrip_crlf out,
                         stderr = rstrip_crlf err, rc = RcInt r,
                         start = Some (now env (world s)),
                         ended = Some (now env (world s')),
                         delta = Some (now env (world s') - now env (world s))\<rparr>
              in (if r \<noteq> 0 then FailJson ''non-zero return code'' res else ExitJson res, s'))"
    by blast
  show "\<exists>new c r out err res.
           trace (snd (run_module env False cluster location s)) = trace s @ new
           \<and> new \<noteq> [] \<and> last new = (c, r, out, err)
           \<and> rc res = RcInt r \<and> cmd res = Some c
           \<and> stdout res = rstrip_crlf out \<and> stderr res = rstrip_crlf err
           \<and> fst (run_module env False cluster location s) =
               (if r \<noteq> 0 then FailJson ''non-zero return code'' res else ExitJson res)"
    apply (rule exI [of _ new], rule exI [of _ c], rule exI [of _ r], rule exI [of _ out],
        rule exI [of _ err])
    apply (rule exI [of _ "\<lparr>changed = True, cmd = Some c, stdout = rstrip_crlf out,
                         stderr = rstrip_crlf err, rc = RcInt r,
                         start = Some (now env (world s)),
                         ended = Some (now env (world ?s')),
                         delta = Some (now env (world ?s') - now env (world s))\<rparr>"])
    using h by (simp add: rm Let_def)
qed

theorem failure_paths_witness:
  "location_checks host_only = Some ''You must specify at least 2 buckets.''
   \<and> run_module failing_env False ''ceph'' host_only (fresh ()) =
       (ExitJson \<lparr>changed = False, cmd = None,
                  stdout = ''You must specify at least 2 buckets.'', stderr = '''',
                  rc = RcInt 1, start = None, ended = None, delta = None\<rparr>, fresh ())
   \<and> location_checks host_rack = None
   \<and> run_module failing_env False ''ceph'' host_rack (fresh ()) =
       (FailJson ''non-zero return code''
          \<lparr>changed = True,
           cmd = Some [''ceph'', ''--cluster'', ''ceph'', ''osd'', ''crush'', ''move'',
                       ''node1'', ''rack=rackA''],
           stdout = '''', stderr = ''Error EINVAL'', rc = RcInt 1, start = Some 0,
           ended = Some 0, delta = Some 0\<rparr>,
        \<lparr>world = (),
         trace =
           [([''ceph'', ''--cluster'', ''ceph'', ''osd'', ''crush'', ''add-bucket'',
              ''node1'', ''host''], 1, '''', ''Error EINVAL'' @ [CHR 0x0A]),
            ([''ceph'', ''--cluster'', ''ceph'', ''osd'', ''crush'', ''add-bucket'',
              ''rackA'', ''rack''], 1, '''', ''Error EINVAL'' @ [CHR 0x0A]),
            ([''ceph'', ''--cluster'', ''ceph'', ''osd'', ''crush'', ''move'',
              ''node1'', ''rack=rackA''], 1, '''', ''Error EINVAL'' @ [CHR 0x0A])]\<rparr>)"
proof -
  have 1: "location_checks host_only = Some ''You must specify at least 2 buckets.''"
    by (simp add: location_checks_def host_only_def fcard_finsert_if)
  show ?thesis
    using failure_paths [of host_only "''You must specify at least 2 buckets.''"
        failing_env "''ceph''" "fresh ()"]
      failure_paths [of host_rack "''''" failing_env "''ceph''" "fresh ()"]
      1 valid_host_rack
    by (simp add: run_module_def eval_defs rstrip_crlf_def initial_result_def)
qed

text \<open>
  C5. For every cluster name, subcommand, bucket name and bucket type,
  \<^verbatim>\<open>generate_cmd\<close> returns exactly the argument vector of eight tokens
  \<^verbatim>\<open>ceph --cluster <cluster> osd crush <subcommand> <bucket> <bucket_type>\<close>, each
  argument passed through unchanged as a token of its own. Every \<^verbatim>\<open>move\<close>
  command that \<^verbatim>\<open>create_and_move_buckets\<close> executes is such a vector whose last
  token is \<^verbatim>\<open>parentType=parentBucketName\<close>, for a bucket type of the list and the
  name that the mapping gives it.
\<close>

theorem generate_cmd_argv:
  "generate_cmd cluster subcommand bucket bucket_type =
     [''ceph'', ''--cluster'', cluster, ''osd'', ''crush'', subcommand, bucket, bucket_type]
   \<and> length (generate_cmd cluster subcommand bucket bucket_type) = 8
   \<and> (\<forall>c \<in> set (map fst (trace (snd (create_and_move_buckets env cluster location
                                         (fresh w))))).
        c ! 5 = ''move'' \<longrightarrow>
          (\<exists>child parentType parentName.
             parentType \<in> set crush_bucket_types \<and>
             fmlookup location parentType = Some parentName \<and>
             c = generate_cmd cluster ''move'' child (parentType @ ''='' @ parentName)))"
proof -
  have "\<exists>child parentType parentName.
          parentType \<in> set crush_bucket_types \<and>
          fmlookup location parentType = Some parentName \<and>
          c = generate_cmd cluster ''move'' child (parentType @ ''='' @ parentName)"
    if c: "c \<in> set (map fst (trace (snd (create_and_move_buckets env cluster location
                                           (fresh w)))))"
      and m: "c ! 5 = ''move''" for c
  proof -
    from c have
      "c \<in> set (spec_commands cluster None (present_levels location crush_bucket_types))"
      unfolding create_and_move_buckets_trace by (simp add: fresh_def)
    from spec_commands_move [OF this m] obtain child level name where
      ln: "(level, name) \<in> set (present_levels location crush_bucket_types)"
      and ceq: "c = spec_move cluster child level name" by blast
    have "level \<in> set crush_bucket_types"
    proof -
      have "level \<in> set (map fst (present_levels location crush_bucket_types))"
        using ln by force
      then show ?thesis unfolding map_fst_present_levels by simp
    qed
    moreover have "fmlookup location level = Some name"
      using ln by (rule present_levels_lookup)
    ultimately show ?thesis
      using ceq by (auto simp: spec_move_def generate_cmd_def)
  qed
  then show ?thesis by (simp add: generate_cmd_def)
qed

theorem generate_cmd_argv_witness:
  "generate_cmd ''ceph'' ''move'' ''node1'' ''rack=rackA'' =
     [''ceph'', ''--cluster'', ''ceph'', ''osd'', ''crush'', ''move'', ''node1'',
      ''rack=rackA'']
   \<and> generate_cmd ''ceph'' ''move'' ''node1'' ''rack=rackA''
       \<in> set (map fst (trace (snd (create_and_move_buckets succeeding_env ''ceph''
                                     host_rack (fresh ())))))
   \<and> ''rack'' \<in> set crush_bucket_types \<and> fmlookup host_rack ''rack'' = Some ''rackA''"
  using generate_cmd_argv [of "''ceph''" "''move''" "''node1''" "''rack=rackA''"
      succeeding_env host_rack "()"]
  by (simp add: eval_defs)

text \<open>
  C6. Command generation is deterministic: two runs with the same cluster name and
  the same mapping (in the same mode) execute the same sequence of argument
  vectors, whatever the two environments answer and whatever the two worlds are;
  so do two calls of \<^verbatim>\<open>create_and_move_buckets\<close>.
\<close>

theorem commands_deterministic:
  "map fst (trace (snd (run_module env1 check_mode cluster location (fresh w1)))) =
   map fst (trace (snd (run_module env2 check_mode cluster location (fresh w2))))
   \<and> map fst (trace (snd (create_and_move_buckets env1 cluster location (fresh w1)))) =
     map fst (trace (snd (create_and_move_buckets env2 cluster location (fresh w2))))"
  by (simp add: run_module_trace create_and_move_buckets_trace fresh_def)

theorem commands_deterministic_witness:
  "map fst (trace (snd (run_module succeeding_env False ''ceph'' host_rack (fresh ())))) =
     [[''ceph'', ''--cluster'', ''ceph'', ''osd'', ''crush'', ''add-bucket'', ''node1'',
       ''host''],
      [''ceph'', ''--cluster'', ''ceph'', ''osd'', ''crush'', ''add-bucket'', ''rackA'',
       ''rack''],
      [''ceph'', ''--cluster'', ''ceph'', ''osd'', ''crush'', ''move'', ''node1'',
       ''rack=rackA'']]
   \<and> map fst (trace (snd (run_module fail_first_env False ''ceph'' host_rack (fresh 0)))) =
     [[''ceph'', ''--cluster'', ''ceph'', ''osd'', ''crush'', ''add-bucket'', ''node1'',
       ''host''],
      [''ceph'', ''--cluster'', ''ceph'', ''osd'', ''crush'', ''add-bucket'', ''rackA'',
       ''rack''],
      [''ceph'', ''--cluster'', ''ceph'', ''osd'', ''crush'', ''move'', ''node1'',
       ''rack=rackA'']]"
  using commands_deterministic [of succeeding_env False "''ceph''" host_rack "()"
      fail_first_env 0]
  by (simp add: run_module_def location_checks_def other_bucket_scan_def fcard_finsert_if
      eval_defs)

text \<open>
  C7. For every input, a run in check mode executes no command (the world and the
  trace are unchanged), does not leave through a validation failure (it ends by
  the \<^verbatim>\<open>return\<close> statement) and returns a result whose \<^verbatim>\<open>changed\<close> is false.
\<close>

theorem check_mode_no_effect:
  "\<exists>res. run_module env True cluster location s = (Returned res, s) \<and> changed res = False"
  by (simp add: run_module_def initial_result_def)

theorem check_mode_no_effect_witness:
  "run_module succeeding_env True ''ceph'' host_only (fresh ()) =
     (Returned \<lparr>changed = False, cmd = None, stdout = '''', stderr = '''', rc = RcEmpty,
                start = None, ended = None, delta = None\<rparr>, \<lparr>world = (), trace = []\<rparr>)"
  using check_mode_no_effect [of succeeding_env "''ceph''" host_only "fresh ()"]
  by (simp add: run_module_def initial_result_def fresh_def)

text \<open>
  C8. For every mapping that passes the checks, at least two levels of the list are
  present, \<^verbatim>\<open>host\<close> among them, and the body of the loop runs at least twice: the
  commands that \<^verbatim>\<open>create_and_move_buckets\<close> executes begin with the
  \<^verbatim>\<open>add-bucket\<close> of the host and hold at least two \<^verbatim>\<open>add-bucket\<close> commands and
  at least one \<^verbatim>\<open>move\<close>. So the function returns a tuple (no unbound local), which
  is the last executed command with what it answered, and whose
  \<^verbatim>\<open>previous_bucket_type\<close> is a bucket type other than \<^verbatim>\<open>host\<close> that is a key of
  the mapping, not \<^verbatim>\<open>None\<close>; and \<^verbatim>\<open>run_module\<close>, which executes the same
  commands, never ends in the branch of the message
  \<^verbatim>\<open>No valid CRUSH bucket type found\<close>.
\<close>

theorem no_valid_bucket_unreachable:
  assumes "location_checks location = None"
  shows "2 \<le> length (present_levels location crush_bucket_types)
         \<and> ''host'' \<in> set (map fst (present_levels location crush_bucket_types))
         \<and> (\<exists>r c out err level.
               fst (create_and_move_buckets env cluster location s) =
                 Inr (r, c, out, err, Some level)
               \<and> level \<in> set crush_bucket_types)
         \<and> (\<exists>new r c out err level host_name s'.
               create_and_move_buckets env cluster location s =
                 (Inr (r, c, out, err, Some level), s')
               \<and> snd (run_module env False cluster location s) = s'
               \<and> trace s' = trace s @ new
               \<and> fmlookup location ''host'' = Some host_name
               \<and> fst (hd new) = generate_cmd cluster ''add-bucket'' host_name ''host''
               \<and> 2 \<le> length (filter (\<lambda>e. fst e ! 5 = ''add-bucket'') new)
               \<and> 1 \<le> length (filter (\<lambda>e. fst e ! 5 = ''move'') new)
               \<and> last new = (c, r, out, err)
               \<and> level \<in> set crush_bucket_types \<and> level \<noteq> ''host''
               \<and> fmlookup location level \<noteq> None)
         \<and> (\<forall>res. fst (run_module env False cluster location s) \<noteq>
               ExitJson (res\<lparr>stdout := no_valid_bucket_msg, rc := RcInt 1\<rparr>))"
proof -
  let ?lv = "present_levels location crush_bucket_types"
  let ?cs = "spec_commands cluster None ?lv"
  from run_module_valid [OF assms, of env cluster s]
  obtain new c r out err level name where
    lv: "?lv \<noteq> []" and ll: "last ?lv = (level, name)"
    and tr: "trace (exec_all env ?cs s) = trace s @ new"
    and mf: "map fst new = ?cs" and nn: "new \<noteq> []"
    and ln: "last new = (c, r, out, err)"
    and cm: "create_and_move_buckets env cluster location s =
          (Inr (r, c, out, err, Some level), exec_all env ?cs s)"
    and rm: "run_module env False cluster location s =
             (let s' = exec_all env ?cs s;
                  res = \<lparr>changed = True, cmd = Some c, stdout = rstrip_crlf out,
                         stderr = rstrip_crlf err, rc = RcInt r,
                         start = Some (now env (world s)),
                         ended = Some (now env (world s')),
                         delta = Some (now env (world s') - now env (world s))\<rparr>
              in (if r \<noteq> 0 then FailJson ''non-zero return code'' res else ExitJson res, s'))"
    by blast
  from present_levels_host [OF assms] obtain host_name rest where
    pl: "?lv = (''host'', host_name) # rest" and rest: "rest \<noteq> []"
    and hn: "fmlookup location ''host'' = Some host_name"
    and others: "\<forall>level \<in> set (map fst rest).
                   level \<noteq> ''host'' \<and> level \<in> set crush_bucket_types"
    by blast
  have two: "2 \<le> length ?lv" by (rule valid_present_levels [OF assms])
  have "(level, name) \<in> set rest"
    using ll rest unfolding pl by (metis last_ConsR last_in_set)
  then have lm: "level \<in> set (map fst rest)" by force
  with others have level: "level \<in> set crush_bucket_types" and lh: "level \<noteq> ''host''"
    by auto
  have "(level, name) \<in> set ?lv" using last_in_set [OF lv] ll by simp
  then have lk: "fmlookup location level \<noteq> None"
    by (simp add: present_levels_lookup)
  have host: "''host'' \<in> set (map fst ?lv)" by (simp add: pl)
  have hd: "fst (hd new) = generate_cmd cluster ''add-bucket'' host_name ''host''"
  proof -
    have "fst (hd new) = hd (map fst new)" using nn by (simp add: hd_map)
    also have "\<dots> = spec_add_bucket cluster host_name ''host''"
      unfolding mf pl by simp
    finally show ?thesis by (simp add: spec_add_bucket_def generate_cmd_def)
  qed
  have cnt: "length (filter (\<lambda>e. fst e ! 5 = k) new) =
               length (filter (\<lambda>c. c ! 5 = k) ?cs)" for k
  proof -
    have "filter (\<lambda>c. c ! 5 = k) (map fst new) =
            map fst (filter (\<lambda>e. fst e ! 5 = k) new)"
      by (simp add: filter_map comp_def)
    then show ?thesis unfolding mf [symmetric] by (metis length_map)
  qed
  have adds: "2 \<le> length (filter (\<lambda>e. fst e ! 5 = ''add-bucket'') new)"
    unfolding cnt spec_commands_adds using two by simp
  have moves: "1 \<le> length (filter (\<lambda>e. fst e ! 5 = ''move'') new)"
    unfolding cnt spec_commands_moves using two by simp
  have sm: "snd (run_module env False cluster location s) = exec_all env ?cs s"
    by (simp add: rm Let_def)
  define res0 where "res0 =
      \<lparr>changed = True, cmd = Some c, stdout = rstrip_crlf out,
       stderr = rstrip_crlf err, rc = RcInt r,
       start = Some (now env (world s)),
       ended = Some (now env (world (exec_all env ?cs s))),
       delta = Some (now env (world (exec_all env ?cs s)) - now env (world s))\<rparr>"
  have out: "fst (run_module env False cluster location s) =
               (if r \<noteq> 0 then FailJson ''non-zero return code'' res0 else ExitJson res0)"
    by (simp add: rm Let_def res0_def)
  have rc0: "rc res0 = RcInt r" by (simp add: res0_def)
  have nb: "fst (run_module env False cluster location s) \<noteq>
               ExitJson (res\<lparr>stdout := no_valid_bucket_msg, rc := RcInt 1\<rparr>)" for res
  proof
    assume a: "fst (run_module env False cluster location s) =
               ExitJson (res\<lparr>stdout := no_valid_bucket_msg, rc := RcInt 1\<rparr>)"
    show False
    proof (cases "r = 0")
      case True
      with a out have "res0 = res\<lparr>stdout := no_valid_bucket_msg, rc := RcInt 1\<rparr>"
        by simp
      then have "rc res0 = RcInt 1" by simp
      with rc0 True show False by simp
    next
      case False
      with a out show False by simp
    qed
  qed
  have run: "\<exists>new r c out err level host_name s'.
               create_and_move_buckets env cluster location s =
                 (Inr (r, c, out, err, Some level), s')
               \<and> snd (run_module env False cluster location s) = s'
               \<and> trace s' = trace s @ new
               \<and> fmlookup location ''host'' = Some host_name
               \<and> fst (hd new) = generate_cmd cluster ''add-bucket'' host_name ''host''
               \<and> 2 \<le> length (filter (\<lambda>e. fst e ! 5 = ''add-bucket'') new)
               \<and> 1 \<le> length (filter (\<lambda>e. fst e ! 5 = ''move'') new)
               \<and> last new = (c, r, out, err)
               \<and> level \<in> set crush_bucket_types \<and> level \<noteq> ''host''
               \<and> fmlookup location level \<noteq> None"
    using cm sm tr hn hd adds moves ln level lh lk by blast
  have tup: "\<exists>r c out err level.
               fst (create_and_move_buckets env cluster location s) =
                 Inr (r, c, out, err, Some level)
               \<and> level \<in> set crush_bucket_types"
    using cm level by simp
  from nb have nb': "\<forall>res. fst (run_module env False cluster location s) \<noteq>
               ExitJson (res\<lparr>stdout := no_valid_bucket_msg, rc := RcInt 1\<rparr>)"
    by blast
  show ?thesis
    using two host tup run nb' by (intro conjI) assumption+
qed

theorem no_valid_bucket_unreachable_witness:
  "location_checks host_rack = None
   \<and> present_levels host_rack crush_bucket_types =
       [(''host'', ''node1''), (''rack'', ''rackA'')]
   \<and> create_and_move_buckets succeeding_env ''ceph'' host_rack (fresh ()) =
       (Inr (0, [''ceph'', ''--cluster'', ''ceph'', ''osd'', ''crush'', ''move'', ''node1'',
                 ''rack=rackA''], ''done'' @ [CHR 0x0A], '''', Some ''rack''),
        \<lparr>world = (),
         trace =
           [([''ceph'', ''--cluster'', ''ceph'', ''osd'', ''crush'', ''add-bucket'',
              ''node1'', ''host''], 0, ''done'' @ [CHR 0x0A], ''''),
            ([''ceph'', ''--cluster'', ''ceph'', ''osd'', ''crush'', ''add-bucket'',
              ''rackA'', ''rack''], 0, ''done'' @ [CHR 0x0A], ''''),
            ([''ceph'', ''--cluster'', ''ceph'', ''osd'', ''crush'', ''move'',
              ''node1'', ''rack=rackA''], 0, ''done'' @ [CHR 0x0A], '''')]\<rparr>)
   \<and> fst (run_module succeeding_env False ''ceph'' host_rack (fresh ())) =
       ExitJson
         \<lparr>changed = True,
          cmd = Some [''ceph'', ''--cluster'', ''ceph'', ''osd'', ''crush'', ''move'',
                      ''node1'', ''rack=rackA''],
          stdout = ''done'', stderr = '''', rc = RcInt 0, start = Some 0,
          ended = Some 0, delta = Some 0\<rparr>"
proof -
  have p: "present_levels host_rack crush_bucket_types =
       [(''host'', ''node1''), (''rack'', ''rackA'')]"
    by (simp add: present_levels_Cons host_rack_def crush_bucket_types_def)
  have a: "create_and_move_buckets succeeding_env ''ceph'' host_rack (fresh ()) =
       (Inr (0, [''ceph'', ''--cluster'', ''ceph'', ''osd'', ''crush'', ''move'', ''node1'',
                 ''rack=rackA''], ''done'' @ [CHR 0x0A], '''', Some ''rack''),
        \<lparr>world = (),
         trace =
           [([''ceph'', ''--cluster'', ''ceph'', ''osd'', ''crush'', ''add-bucket'',
              ''node1'', ''host''], 0, ''done'' @ [CHR 0x0A], ''''),
            ([''ceph'', ''--cluster'', ''ceph'', ''osd'', ''crush'', ''add-bucket'',
              ''rackA'', ''rack''], 0, ''done'' @ [CHR 0x0A], ''''),
            ([''ceph'', ''--cluster'', ''ceph'', ''osd'', ''crush'', ''move'',
              ''node1'', ''rack=rackA''], 0, ''done'' @ [CHR 0x0A], '''')]\<rparr>)"
    by (simp add: eval_defs)
  have b: "fst (run_module succeeding_env False ''ceph'' host_rack (fresh ())) =
       ExitJson
         \<lparr>changed = True,
          cmd = Some [''ceph'', ''--cluster'', ''ceph'', ''osd'', ''crush'', ''move'',
                      ''node1'', ''rack=rackA''],
          stdout = ''done'', stderr = '''', rc = RcInt 0, start = Some 0,
          ended = Some 0, delta = Some 0\<rparr>"
    by (simp add: run_module_def check_defs eval_defs rstrip_crlf_def)
  show ?thesis
    using no_valid_bucket_unreachable [OF valid_host_rack, of succeeding_env "''ceph''"
        "fresh ()"] valid_host_rack p a b
    by (intro conjI) assumption+
qed

text \<open>
  C9. A key that is not one of the ten bucket types never changes what
  \<^verbatim>\<open>create_and_move_buckets\<close> does, and two mappings with the same restriction to
  the ten bucket types make it do the same; yet every key counts for the first
  check: with one more key, whatever it is, the check of two entries fails only
  if the mapping was empty before.
\<close>

theorem unknown_keys_ignored:
  "(k \<notin> set crush_bucket_types \<longrightarrow>
      create_and_move_buckets env cluster (fmupd k v location) s =
        create_and_move_buckets env cluster location s)
   \<and> (k |\<notin>| fmdom location \<longrightarrow>
        (location_checks (fmupd k v location) = Some ''You must specify at least 2 buckets.'')
          = (fmdom location = {||}))
   \<and> (fmrestrict_set (set crush_bucket_types) location =
        fmrestrict_set (set crush_bucket_types) location' \<longrightarrow>
        create_and_move_buckets env cluster location s =
          create_and_move_buckets env cluster location' s)"
proof (intro conjI impI)
  assume "k \<notin> set crush_bucket_types"
  then show "create_and_move_buckets env cluster (fmupd k v location) s =
        create_and_move_buckets env cluster location s"
    by (simp add: create_and_move_buckets_eq present_levels_fmupd)
next
  assume k: "k |\<notin>| fmdom location"
  have "fcard (fmdom (fmupd k v location)) = Suc (fcard (fmdom location))"
    using k by (simp add: fcard_finsert_disjoint)
  then show "(location_checks (fmupd k v location) = Some ''You must specify at least 2 buckets.'')
          = (fmdom location = {||})"
    by (auto simp: location_checks_def)
next
  assume r: "fmrestrict_set (set crush_bucket_types) location =
        fmrestrict_set (set crush_bucket_types) location'"
  have "present_levels location crush_bucket_types =
          present_levels (fmrestrict_set (set crush_bucket_types) location) crush_bucket_types"
    by (simp add: present_levels_restrict)
  also have "\<dots> = present_levels location' crush_bucket_types"
    unfolding r by (simp add: present_levels_restrict)
  finally show "create_and_move_buckets env cluster location s =
          create_and_move_buckets env cluster location' s"
    by (simp add: create_and_move_buckets_eq)
qed

theorem unknown_keys_ignored_witness:
  "''shelf'' \<notin> set crush_bucket_types
   \<and> create_and_move_buckets succeeding_env ''ceph'' (fmupd ''shelf'' ''s1'' host_rack) (fresh ()) =
       create_and_move_buckets succeeding_env ''ceph'' host_rack (fresh ())
   \<and> ''shelf'' |\<notin>| fmdom host_only
   \<and> location_checks host_only = Some ''You must specify at least 2 buckets.''
   \<and> location_checks (fmupd ''shelf'' ''s1'' host_only) \<noteq>
       Some ''You must specify at least 2 buckets.''
   \<and> fmrestrict_set (set crush_bucket_types) (fmupd ''shelf'' ''s1'' host_rack) =
       fmrestrict_set (set crush_bucket_types) host_rack"
proof -
  have 1: "''shelf'' \<notin> set crush_bucket_types" by (simp add: crush_bucket_types_def)
  have 2: "''shelf'' |\<notin>| fmdom host_only" by (simp add: host_only_def)
  have 3: "fmdom host_only \<noteq> {||}" by (simp add: host_only_def)
  have 4: "fmrestrict_set (set crush_bucket_types) (fmupd ''shelf'' ''s1'' host_rack) =
       fmrestrict_set (set crush_bucket_types) host_rack"
    using 1 by (simp add: fmfilter_alt_defs)
  have 5: "location_checks host_only = Some ''You must specify at least 2 buckets.''"
    by (simp add: location_checks_def host_only_def fcard_finsert_if)
  show ?thesis
    using unknown_keys_ignored [of "''shelf''" succeeding_env "''ceph''" "''s1''" host_rack "fresh ()" host_rack]
      unknown_keys_ignored [of "''shelf''" succeeding_env "''ceph''" "''s1''" host_only "fresh ()" host_only]
      1 2 3 4 5
    by simp
qed

text \<open>
  C10. For every mapping that passes the checks, outside check mode, the run ends
  in \<^verbatim>\<open>exit_json\<close> or \<^verbatim>\<open>fail_json\<close> with a result whose \<^verbatim>\<open>changed\<close> is true,
  whatever the exit codes of the commands.
\<close>

theorem always_changed:
  assumes "location_checks location = None"
  shows "\<exists>res. (fst (run_module env False cluster location s) = ExitJson res \<or>
                fst (run_module env False cluster location s) =
                  FailJson ''non-zero return code'' res)
               \<and> changed res = True"
proof -
  from run_module_valid [OF assms, of env cluster s] obtain c r out err where
    "run_module env False cluster location s =
             (let s' = exec_all env (spec_commands cluster None
                         (present_levels location crush_bucket_types)) s;
                  res = \<lparr>changed = True, cmd = Some c, stdout = rstrip_crlf out,
                         stderr = rstrip_crlf err, rc = RcInt r,
                         start = Some (now env (world s)),
                         ended = Some (now env (world s')),
                         delta = Some (now env (world s') - now env (world s))\<rparr>
              in (if r \<noteq> 0 then FailJson ''non-zero return code'' res else ExitJson res, s'))"
    by blast
  then show ?thesis by (auto simp: Let_def)
qed

theorem always_changed_witness:
  "location_checks host_rack = None
   \<and> fst (run_module failing_env False ''ceph'' host_rack (fresh ())) =
       FailJson ''non-zero return code''
         \<lparr>changed = True,
          cmd = Some [''ceph'', ''--cluster'', ''ceph'', ''osd'', ''crush'', ''move'',
                      ''node1'', ''rack=rackA''],
          stdout = '''', stderr = ''Error EINVAL'', rc = RcInt 1, start = Some 0,
          ended = Some 0, delta = Some 0\<rparr>"
proof -
  have a: "fst (run_module failing_env False ''ceph'' host_rack (fresh ())) =
       FailJson ''non-zero return code''
         \<lparr>changed = True,
          cmd = Some [''ceph'', ''--cluster'', ''ceph'', ''osd'', ''crush'', ''move'',
                      ''node1'', ''rack=rackA''],
          stdout = '''', stderr = ''Error EINVAL'', rc = RcInt 1, start = Some 0,
          ended = Some 0, delta = Some 0\<rparr>"
    by (simp add: run_module_def check_defs eval_defs rstrip_crlf_def)
  show ?thesis
    using always_changed [OF valid_host_rack, of failing_env "''ceph''" "fresh ()"]
      valid_host_rack a
    by (intro conjI) assumption+
qed

end
